theory Spec2Isabelle
  imports Main "HOL-Library.AList"
begin

section \<open>Book Catalog API: the data model\<close>

text \<open>
  The request model \<open>Book\<close> of the source: every field is typed, and \<open>available\<close>
  has already received its default when the handler sees the value.
\<close>

record Book =
  title :: string
  author :: string
  isbn :: string
  publication_year :: int
  genre :: string
  available :: bool

text \<open>
  The request model \<open>BookUpdate\<close>. Every field is \<open>Optional\<close> and the handler dumps
  it with \<open>exclude_unset=True\<close>, so a field has three states: not sent (\<open>None\<close>),
  sent as null (\<open>Some None\<close>), sent with a value (\<open>Some (Some v)\<close>).
\<close>

record BookUpdate =
  u_title :: "string option option"
  u_author :: "string option option"
  u_isbn :: "string option option"
  u_publication_year :: "int option option"
  u_genre :: "string option option"
  u_available :: "bool option option"

text \<open>
  A value of \<open>books_db\<close>: a dict with the six keys of \<open>Book\<close>. The handlers never
  add or remove a key of it, but \<open>update_book\<close> can store Python's \<open>None\<close> under any
  of them, so every value is an option.
\<close>

record book_data =
  d_title :: "string option"
  d_author :: "string option"
  d_isbn :: "string option"
  d_publication_year :: "int option"
  d_genre :: "string option"
  d_available :: "bool option"

text \<open>
  The two globals. A Python dict keeps insertion order, which the listing shows, so
  \<open>books_db\<close> is an association list: assignment to a key is \<open>AList.update\<close>
  (in place for a key that is there, at the end for a new one), \<open>del\<close> is
  \<open>AList.delete\<close>, lookup is \<open>map_of\<close>. A dict has no key twice: \<open>is_dict\<close>.
\<close>

record state =
  books_db :: "(int \<times> book_data) list"
  next_book_id :: int

definition is_dict :: "state \<Rightarrow> bool" where
  "is_dict s = distinct (map fst (books_db s))"

definition init :: state where
  "init = \<lparr>books_db =
      [(1, \<lparr>d_title = Some ''To Kill a Mockingbird'', d_author = Some ''Harper Lee'',
            d_isbn = Some ''978-0-06-112008-4'', d_publication_year = Some 1960,
            d_genre = Some ''Fiction'', d_available = Some True\<rparr>),
       (2, \<lparr>d_title = Some ''1984'', d_author = Some ''George Orwell'',
            d_isbn = Some ''978-0-452-28423-4'', d_publication_year = Some 1949,
            d_genre = Some ''Dystopian'', d_available = Some True\<rparr>)],
    next_book_id = 3\<rparr>"

subsection \<open>Errors and responses\<close>

text \<open>
  \<open>HTTPException\<close> carries the status code and the detail string. \<open>AttributeError\<close>
  and \<open>KeyError\<close> are the uncaught Python exceptions a handler can run into; the
  framework answers them with status 500.
\<close>

datatype error = HTTPException nat string | AttributeError | KeyError

definition HTTP_200_OK :: nat where "HTTP_200_OK = 200"
definition HTTP_201_CREATED :: nat where "HTTP_201_CREATED = 201"
definition HTTP_400_BAD_REQUEST :: nat where "HTTP_400_BAD_REQUEST = 400"
definition HTTP_404_NOT_FOUND :: nat where "HTTP_404_NOT_FOUND = 404"

text \<open>A book in a response, \<open>{"id": book_id, **book_data}\<close>, is the pair of both.\<close>

type_synonym book_out = "int \<times> book_data"

datatype body =
    No_Books string "book_out list"
  | Listing nat "book_out list"
  | One_Book book_out
  | Message_Book string book_out
  | Message_Deleted string book_out

text \<open>A response is an exception or the status code of the route with the body.\<close>

type_synonym response = "error + nat \<times> body"

subsection \<open>Library functions of Python the handlers use\<close>

text \<open>
  \<open>str.lower\<close> is Python's, not this repository's. On a string of ASCII characters
  it maps \<open>A\<close> to \<open>Z\<close> onto \<open>a\<close> to \<open>z\<close> and keeps every other character. On any
  other string it is Python's lower-casing of Unicode text, which is left open here: the
  handlers take it as the parameter \<open>U\<close>, and every theorem holds for every \<open>U\<close>.
  Strings are byte strings (text in UTF-8), so a character is ASCII when its top bit is
  clear.
\<close>

definition is_ascii :: "string \<Rightarrow> bool" where
  "is_ascii s = list_all (\<lambda>c. \<not> digit7 c) s"

definition lower_char :: "char \<Rightarrow> char" where
  "lower_char c =
     (case map_of (zip ''ABCDEFGHIJKLMNOPQRSTUVWXYZ'' ''abcdefghijklmnopqrstuvwxyz'') c of
        None \<Rightarrow> c
      | Some l \<Rightarrow> l)"

definition lower :: "(string \<Rightarrow> string) \<Rightarrow> string \<Rightarrow> string" where
  "lower U s = (if is_ascii s then map lower_char s else U s)"

text \<open>\<open>str\<close> of an integer, as an f-string formats it.\<close>

definition digit :: "nat \<Rightarrow> char" where
  "digit d = ''0123456789'' ! d"

fun str_nat :: "nat \<Rightarrow> string" where
  "str_nat n = (if n < 10 then [digit n] else str_nat (n div 10) @ [digit (n mod 10)])"

declare str_nat.simps [simp del]

definition str_int :: "int \<Rightarrow> string" where
  "str_int i = (if i < 0 then CHR ''-'' # str_nat (nat (- i)) else str_nat (nat i))"

text \<open>\<open>str\<close> of a value that is a string or \<open>None\<close>, as an f-string formats it.\<close>

definition str_opt :: "string option \<Rightarrow> string" where
  "str_opt v = (case v of None \<Rightarrow> ''None'' | Some s \<Rightarrow> s)"

text \<open>\<open>Book.model_dump()\<close>: the dict of the six fields.\<close>

definition model_dump :: "Book \<Rightarrow> book_data" where
  "model_dump book =
     \<lparr>d_title = Some (title book), d_author = Some (author book), d_isbn = Some (isbn book),
      d_publication_year = Some (publication_year book), d_genre = Some (genre book),
      d_available = Some (available book)\<rparr>"

text \<open>
  \<open>d.update(book_update.model_dump(exclude_unset=True))\<close>: each field that was sent
  overwrites the stored value, each other one is kept.
\<close>

definition dict_update :: "book_data \<Rightarrow> BookUpdate \<Rightarrow> book_data" where
  "dict_update d u =
     \<lparr>d_title = (case u_title u of None \<Rightarrow> d_title d | Some v \<Rightarrow> v),
      d_author = (case u_author u of None \<Rightarrow> d_author d | Some v \<Rightarrow> v),
      d_isbn = (case u_isbn u of None \<Rightarrow> d_isbn d | Some v \<Rightarrow> v),
      d_publication_year =
        (case u_publication_year u of None \<Rightarrow> d_publication_year d | Some v \<Rightarrow> v),
      d_genre = (case u_genre u of None \<Rightarrow> d_genre d | Some v \<Rightarrow> v),
      d_available = (case u_available u of None \<Rightarrow> d_available d | Some v \<Rightarrow> v)\<rparr>"

section \<open>The handlers\<close>

text \<open>
  The dict comprehension of the genre filter. \<open>v["genre"].lower()\<close> is evaluated for
  every item, and raises \<open>AttributeError\<close> on a stored \<open>None\<close>.
\<close>

fun filter_genre :: "(string \<Rightarrow> string) \<Rightarrow> string \<Rightarrow> (int \<times> book_data) list \<Rightarrow> error + (int \<times> book_data) list" where
  "filter_genre U g [] = Inr []"
| "filter_genre U g ((k, v) # kvs) =
     (case d_genre v of
        None \<Rightarrow> Inl AttributeError
      | Some s \<Rightarrow>
         (case filter_genre U g kvs of
            Inl e \<Rightarrow> Inl e
          | Inr r \<Rightarrow> Inr (if lower U s = lower U g then (k, v) # r else r)))"

definition filter_available :: "bool \<Rightarrow> (int \<times> book_data) list \<Rightarrow> (int \<times> book_data) list" where
  "filter_available a kvs = filter (\<lambda>(k, v). d_available v = Some a) kvs"

text \<open>
  \<open>GET /books\<close>. \<open>if genre:\<close> is Python's truth test: the filter is skipped for a
  parameter that was not sent and for the empty string.
\<close>

definition get_all_books :: "(string \<Rightarrow> string) \<Rightarrow> string option \<Rightarrow> bool option \<Rightarrow> state \<Rightarrow> response \<times> state" where
  "get_all_books U genre_q available_q s =
     (if books_db s = [] then (Inr (HTTP_200_OK, No_Books ''No books in catalog'' []), s)
      else
        (case (case genre_q of
                 None \<Rightarrow> Inr (books_db s)
               | Some g \<Rightarrow> if g = [] then Inr (books_db s) else filter_genre U g (books_db s)) of
           Inl e \<Rightarrow> (Inl e, s)
         | Inr filtered_books \<Rightarrow>
            (let filtered_books' =
                   (case available_q of
                      None \<Rightarrow> filtered_books
                    | Some a \<Rightarrow> filter_available a filtered_books);
                 result = map (\<lambda>(book_id, book_data). (book_id, book_data)) filtered_books'
             in (Inr (HTTP_200_OK, Listing (length result) result), s))))"

definition not_found :: "int \<Rightarrow> error" where
  "not_found book_id =
     HTTPException HTTP_404_NOT_FOUND (''Book with ID '' @ str_int book_id @ '' not found'')"

text \<open>\<open>GET /books/{book_id}\<close>.\<close>

definition get_book :: "int \<Rightarrow> state \<Rightarrow> response \<times> state" where
  "get_book book_id s =
     (case map_of (books_db s) book_id of
        None \<Rightarrow> (Inl (not_found book_id), s)
      | Some book_data \<Rightarrow> (Inr (HTTP_200_OK, One_Book (book_id, book_data)), s))"

text \<open>
  \<open>POST /books\<close>. The loop over \<open>books_db.values()\<close> raises at the first stored isbn
  equal to the one sent; nothing has been written then.
\<close>

definition isbn_exists :: "string \<Rightarrow> (int \<times> book_data) list \<Rightarrow> bool" where
  "isbn_exists i db = list_ex (\<lambda>existing_book. d_isbn existing_book = Some i) (map snd db)"

definition create_book :: "Book \<Rightarrow> state \<Rightarrow> response \<times> state" where
  "create_book book s =
     (if isbn_exists (isbn book) (books_db s)
      then (Inl (HTTPException HTTP_400_BAD_REQUEST
                  (''Book with ISBN '' @ isbn book @ '' already exists'')), s)
      else
        (let book_id = next_book_id s;
             s' = \<lparr>books_db = AList.update book_id (model_dump book) (books_db s),
                   next_book_id = next_book_id s + 1\<rparr>
         in (case map_of (books_db s') book_id of
               None \<Rightarrow> (Inl KeyError, s')
             | Some book_data \<Rightarrow>
                 (Inr (HTTP_201_CREATED,
                       Message_Book ''Book created successfully'' (book_id, book_data)), s'))))"

text \<open>
  \<open>PUT /books/{book_id}\<close>. The isbn check runs when the key \<open>isbn\<close> is in the dumped
  update, whatever its value, and compares with every other id's stored isbn.
\<close>

definition isbn_conflict :: "int \<Rightarrow> string option \<Rightarrow> (int \<times> book_data) list \<Rightarrow> bool" where
  "isbn_conflict book_id v db = list_ex (\<lambda>(bid, bdata). bid \<noteq> book_id \<and> d_isbn bdata = v) db"

definition apply_update :: "int \<Rightarrow> book_data \<Rightarrow> BookUpdate \<Rightarrow> state \<Rightarrow> response \<times> state" where
  "apply_update book_id old book_update s =
     (let s' = s\<lparr>books_db := AList.update book_id (dict_update old book_update) (books_db s)\<rparr>
      in (case map_of (books_db s') book_id of
            None \<Rightarrow> (Inl KeyError, s')
          | Some book_data \<Rightarrow>
              (Inr (HTTP_200_OK,
                    Message_Book ''Book updated successfully'' (book_id, book_data)), s')))"

definition update_book :: "int \<Rightarrow> BookUpdate \<Rightarrow> state \<Rightarrow> response \<times> state" where
  "update_book book_id book_update s =
     (case map_of (books_db s) book_id of
        None \<Rightarrow> (Inl (not_found book_id), s)
      | Some old \<Rightarrow>
         (case u_isbn book_update of
            None \<Rightarrow> apply_update book_id old book_update s
          | Some v \<Rightarrow>
             (if isbn_conflict book_id v (books_db s)
              then (Inl (HTTPException HTTP_400_BAD_REQUEST
                          (''ISBN '' @ str_opt v @ '' already exists for another book'')), s)
              else apply_update book_id old book_update s)))"

text \<open>\<open>DELETE /books/{book_id}\<close>.\<close>

definition delete_book :: "int \<Rightarrow> state \<Rightarrow> response \<times> state" where
  "delete_book book_id s =
     (case map_of (books_db s) book_id of
        None \<Rightarrow> (Inl (not_found book_id), s)
      | Some deleted_book \<Rightarrow>
          (Inr (HTTP_200_OK, Message_Deleted ''Book deleted successfully'' (book_id, deleted_book)),
           s\<lparr>books_db := AList.delete book_id (books_db s)\<rparr>))"

subsection \<open>Sequences of requests\<close>

datatype request =
    Get_All_Books "string option" "bool option"
  | Get_Book int
  | Create_Book Book
  | Update_Book int BookUpdate
  | Delete_Book int

fun handle :: "(string \<Rightarrow> string) \<Rightarrow> request \<Rightarrow> state \<Rightarrow> response \<times> state" where
  "handle U (Get_All_Books g a) s = get_all_books U g a s"
| "handle U (Get_Book i) s = get_book i s"
| "handle U (Create_Book b) s = create_book b s"
| "handle U (Update_Book i u) s = update_book i u s"
| "handle U (Delete_Book i) s = delete_book i s"

text \<open>
  The state after a sequence of requests, served one after the other. \<open>U\<close> is the
  parameter of \<open>lower\<close>, which the listing needs.
\<close>

fun exec :: "(string \<Rightarrow> string) \<Rightarrow> state \<Rightarrow> request list \<Rightarrow> state" where
  "exec U s [] = s"
| "exec U s (r # rs) = exec U (snd (handle U r s)) rs"

subsection \<open>Predicates on states\<close>

text \<open>
  What \<open>get_all_books\<close> keeps of the catalog, as one predicate on a stored book: the
  genre test when a non-empty genre was sent, the availability test when one was sent.
\<close>

definition passes_filters :: "(string \<Rightarrow> string) \<Rightarrow> string option \<Rightarrow> bool option \<Rightarrow> book_data \<Rightarrow> bool" where
  "passes_filters U genre_q available_q v \<longleftrightarrow>
     (case genre_q of
        None \<Rightarrow> True
      | Some g \<Rightarrow> g = [] \<or> map_option (lower U) (d_genre v) = Some (lower U g))
     \<and> (case available_q of None \<Rightarrow> True | Some a \<Rightarrow> d_available v = Some a)"

text \<open>
  The invariant of the two globals: no id twice, no isbn twice, every id below the
  counter.
\<close>

definition inv :: "state \<Rightarrow> bool" where
  "inv s \<longleftrightarrow>
     distinct (map fst (books_db s)) \<and> distinct (map (\<lambda>p. d_isbn (snd p)) (books_db s))
     \<and> list_all (\<lambda>(k, d). k < next_book_id s) (books_db s)"

subsection \<open>Concrete requests\<close>

text \<open>A payload whose isbn is not one of the seeds', and one with the isbn of seed 1.\<close>

definition a_book :: Book where
  "a_book = \<lparr>title = ''Emma'', author = ''Jane Austen'', isbn = ''978-0-14-143958-7'',
     publication_year = 1815, genre = ''Romance'', available = False\<rparr>"

definition dup_book :: Book where
  "dup_book = \<lparr>title = ''Go Set a Watchman'', author = ''Harper Lee'',
     isbn = ''978-0-06-112008-4'', publication_year = 2015, genre = ''Fiction'',
     available = True\<rparr>"

text \<open>
  Update bodies: every field sent as null; only \<open>available\<close> sent; only
  \<open>isbn\<close> sent.
\<close>

definition null_update :: BookUpdate where
  "null_update = \<lparr>u_title = Some None, u_author = Some None, u_isbn = Some None,
     u_publication_year = Some None, u_genre = Some None, u_available = Some None\<rparr>"

definition available_update :: BookUpdate where
  "available_update = \<lparr>u_title = None, u_author = None, u_isbn = None,
     u_publication_year = None, u_genre = None, u_available = Some (Some False)\<rparr>"

definition isbn_update :: "string option \<Rightarrow> BookUpdate" where
  "isbn_update v = \<lparr>u_title = None, u_author = None, u_isbn = Some v,
     u_publication_year = None, u_genre = None, u_available = None\<rparr>"

section \<open>Basic facts about the handlers\<close>

lemmas status_defs =
  HTTP_200_OK_def HTTP_201_CREATED_def HTTP_400_BAD_REQUEST_def HTTP_404_NOT_FOUND_def

lemma isbn_exists_iff:
  "isbn_exists i db \<longleftrightarrow> (\<exists>(k, d) \<in> set db. d_isbn d = Some i)"
  by (force simp: isbn_exists_def list_ex_iff)

lemma isbn_conflict_iff:
  "isbn_conflict book_id v db \<longleftrightarrow> (\<exists>(bid, bdata) \<in> set db. bid \<noteq> book_id \<and> d_isbn bdata = v)"
  by (simp add: isbn_conflict_def list_ex_iff)

lemma create_book_fresh:
  assumes "\<not> isbn_exists (isbn book) (books_db s)"
  shows "create_book book s =
           (Inr (201, Message_Book ''Book created successfully'' (next_book_id s, model_dump book)),
            \<lparr>books_db = AList.update (next_book_id s) (model_dump book) (books_db s),
             next_book_id = next_book_id s + 1\<rparr>)"
  using assms by (simp add: create_book_def Let_def AList.update_conv' status_defs)

lemma create_book_dup:
  assumes "isbn_exists (isbn book) (books_db s)"
  shows "create_book book s =
           (Inl (HTTPException 400 (''Book with ISBN '' @ isbn book @ '' already exists'')), s)"
  using assms by (simp add: create_book_def status_defs)

lemma apply_update_eq:
  "apply_update book_id old u s =
     (Inr (200, Message_Book ''Book updated successfully'' (book_id, dict_update old u)),
      s\<lparr>books_db := AList.update book_id (dict_update old u) (books_db s)\<rparr>)"
  by (simp add: apply_update_def Let_def AList.update_conv' status_defs)

lemma set_update_subset: "set (AList.update k v al) \<subseteq> insert (k, v) (set al)"
  by (induction al) auto

lemma distinct_isbn_update:
  assumes "distinct (map fst db)" and "distinct (map (\<lambda>p. d_isbn (snd p)) db)"
    and "\<forall>(k', d) \<in> set db. k' \<noteq> k \<longrightarrow> d_isbn d \<noteq> d_isbn v"
  shows "distinct (map (\<lambda>p. d_isbn (snd p)) (AList.update k v db))"
  using assms
proof (induction db)
  case Nil
  then show ?case by simp
next
  case (Cons p ps)
  show ?case
  proof (cases "fst p = k")
    case True
    with Cons.prems show ?thesis by (force simp: image_iff)
  next
    case False
    from Cons.prems have "distinct (map fst ps)" and "distinct (map (\<lambda>p. d_isbn (snd p)) ps)"
      and "\<forall>(k', d) \<in> set ps. k' \<noteq> k \<longrightarrow> d_isbn d \<noteq> d_isbn v"
      by simp_all
    then have ih: "distinct (map (\<lambda>p. d_isbn (snd p)) (AList.update k v ps))" by (rule Cons.IH)
    have "d_isbn (snd p) \<notin> (\<lambda>p. d_isbn (snd p)) ` set (AList.update k v ps)"
    proof
      assume "d_isbn (snd p) \<in> (\<lambda>p. d_isbn (snd p)) ` set (AList.update k v ps)"
      then obtain q where q: "q \<in> set (AList.update k v ps)" "d_isbn (snd q) = d_isbn (snd p)"
        by auto
      with set_update_subset [of k v ps] have "q = (k, v) \<or> q \<in> set ps" by auto
      then show False
      proof
        assume "q = (k, v)"
        with q False Cons.prems(3) show False by (cases p) auto
      next
        assume "q \<in> set ps"
        with q Cons.prems(2) show False by (force simp: image_iff)
      qed
    qed
    with ih False show ?thesis by simp
  qed
qed

lemma inv_init: "inv init"
  by (simp add: inv_def init_def)

lemma inv_create: assumes "inv s" shows "inv (snd (create_book book s))"
proof (cases "isbn_exists (isbn book) (books_db s)")
  case True
  with assms show ?thesis by (simp add: create_book_dup)
next
  case False
  let ?k = "next_book_id s" and ?v = "model_dump book"
  from assms have d: "distinct (map fst (books_db s))"
    and i: "distinct (map (\<lambda>p. d_isbn (snd p)) (books_db s))"
    and b: "\<forall>(k, d) \<in> set (books_db s). k < next_book_id s"
    by (simp_all add: inv_def list_all_iff)
  from False have "\<forall>(k', d) \<in> set (books_db s). k' \<noteq> ?k \<longrightarrow> d_isbn d \<noteq> d_isbn ?v"
    by (auto simp: isbn_exists_iff model_dump_def)
  from distinct_isbn_update [OF d i this]
  have 1: "distinct (map (\<lambda>p. d_isbn (snd p)) (AList.update ?k ?v (books_db s)))" .
  have 2: "distinct (map fst (AList.update ?k ?v (books_db s)))"
    using d by (rule AList.distinct_update)
  have 3: "\<forall>(k, d) \<in> set (AList.update ?k ?v (books_db s)). k < next_book_id s + 1"
    using b set_update_subset [of ?k ?v "books_db s"] by fastforce
  from 1 2 3 show ?thesis
    by (simp add: create_book_fresh [OF False] inv_def list_all_iff)
qed

lemma update_book_cases:
  "update_book book_id u s =
     (case map_of (books_db s) book_id of
        None \<Rightarrow> (Inl (not_found book_id), s)
      | Some old \<Rightarrow>
          if (\<exists>v. u_isbn u = Some v \<and> isbn_conflict book_id v (books_db s))
          then (Inl (HTTPException 400
                  (''ISBN '' @ str_opt (the (u_isbn u)) @ '' already exists for another book'')), s)
          else (Inr (200, Message_Book ''Book updated successfully'' (book_id, dict_update old u)),
                s\<lparr>books_db := AList.update book_id (dict_update old u) (books_db s)\<rparr>))"
  by (simp add: update_book_def apply_update_eq status_defs split: option.splits)

lemma inv_update: assumes "inv s" shows "inv (snd (update_book book_id u s))"
proof (cases "map_of (books_db s) book_id")
  case None
  with assms show ?thesis by (simp add: update_book_cases)
next
  case (Some old)
  show ?thesis
  proof (cases "\<exists>v. u_isbn u = Some v \<and> isbn_conflict book_id v (books_db s)")
    case True
    with Some assms show ?thesis by (simp add: update_book_cases)
  next
    case False
    let ?v = "dict_update old u"
    from assms have d: "distinct (map fst (books_db s))"
      and i: "distinct (map (\<lambda>p. d_isbn (snd p)) (books_db s))"
      and b: "\<forall>(k, d) \<in> set (books_db s). k < next_book_id s"
      by (simp_all add: inv_def list_all_iff)
    from Some have mem: "(book_id, old) \<in> set (books_db s)" by (rule map_of_SomeD)
    have "\<forall>(k', d) \<in> set (books_db s). k' \<noteq> book_id \<longrightarrow> d_isbn d \<noteq> d_isbn ?v"
    proof (cases "u_isbn u")
      case None
      then have "d_isbn ?v = d_isbn old" by (simp add: dict_update_def)
      moreover have "\<forall>(k', d) \<in> set (books_db s). k' \<noteq> book_id \<longrightarrow> d_isbn d \<noteq> d_isbn old"
      proof (clarify)
        fix k' d assume kd: "(k', d) \<in> set (books_db s)" "k' \<noteq> book_id" "d_isbn d = d_isbn old"
        from i have "inj_on (\<lambda>p. d_isbn (snd p)) (set (books_db s))" by (simp add: distinct_map)
        from inj_onD [OF this _ kd(1) mem] kd show False by simp
      qed
      ultimately show ?thesis by simp
    next
      case (Some v)
      with False have "\<not> isbn_conflict book_id v (books_db s)" by simp
      moreover from Some have "d_isbn ?v = v" by (simp add: dict_update_def)
      ultimately show ?thesis by (auto simp: isbn_conflict_iff)
    qed
    from distinct_isbn_update [OF d i this]
    have 1: "distinct (map (\<lambda>p. d_isbn (snd p)) (AList.update book_id ?v (books_db s)))" .
    have 2: "distinct (map fst (AList.update book_id ?v (books_db s)))"
      using d by (rule AList.distinct_update)
    have 3: "\<forall>(k, d) \<in> set (AList.update book_id ?v (books_db s)). k < next_book_id s"
      using b mem set_update_subset [of book_id ?v "books_db s"] by fastforce
    have "snd (update_book book_id u s) =
            s\<lparr>books_db := AList.update book_id ?v (books_db s)\<rparr>"
      by (subst update_book_cases) (simp only: Some option.case False if_False snd_conv)
    with 1 2 3 show ?thesis
      by (simp add: inv_def list_all_iff)
  qed
qed

lemma inv_delete: assumes "inv s" shows "inv (snd (delete_book book_id s))"
proof (cases "map_of (books_db s) book_id")
  case None
  with assms show ?thesis by (simp add: delete_book_def)
next
  case (Some d)
  from assms show ?thesis
    by (simp add: delete_book_def Some inv_def AList.distinct_delete list_all_iff
        AList.delete_eq distinct_map_filter)
qed

lemma get_all_books_state: "snd (get_all_books U g a s) = s"
  by (simp add: get_all_books_def Let_def split: sum.splits)

lemma get_book_state: "snd (get_book i s) = s"
  by (simp add: get_book_def split: option.splits)

lemma inv_handle: "inv s \<Longrightarrow> inv (snd (handle U r s))"
  by (cases r) (simp_all add: get_all_books_state get_book_state inv_create inv_update inv_delete)

lemma inv_exec: "inv s \<Longrightarrow> inv (exec U s rs)"
  by (induction rs arbitrary: s) (simp_all add: inv_handle)

lemma counter_create: "next_book_id s \<le> next_book_id (snd (create_book book s))"
  by (cases "isbn_exists (isbn book) (books_db s)") (simp_all add: create_book_fresh create_book_dup)

lemma counter_update: "next_book_id (snd (update_book book_id u s)) = next_book_id s"
  by (simp add: update_book_cases split: option.splits)

lemma counter_delete: "next_book_id (snd (delete_book book_id s)) = next_book_id s"
  by (simp add: delete_book_def split: option.splits)

lemma counter_handle: "next_book_id s \<le> next_book_id (snd (handle U r s))"
  by (cases r)
    (simp_all add: get_all_books_state get_book_state counter_create counter_update counter_delete)

lemma counter_exec: "next_book_id s \<le> next_book_id (exec U s rs)"
proof (induction rs arbitrary: s)
  case Nil
  show ?case by simp
next
  case (Cons r rs)
  have "next_book_id s \<le> next_book_id (snd (handle U r s))" by (rule counter_handle)
  also have "\<dots> \<le> next_book_id (exec U (snd (handle U r s)) rs)" by (rule Cons.IH)
  finally show ?case by simp
qed

lemma lower_ascii: "is_ascii s \<Longrightarrow> lower U s = map lower_char s"
  by (simp add: lower_def)

lemma lower_non_ascii: "\<not> is_ascii s \<Longrightarrow> lower U s = U s"
  by (simp add: lower_def)

lemma filter_genre_ok:
  assumes "\<forall>(k, v) \<in> set kvs. d_genre v \<noteq> None"
  shows "filter_genre U g kvs =
           Inr (filter (\<lambda>(k, v). map_option (lower U) (d_genre v) = Some (lower U g)) kvs)"
  using assms by (induction kvs) (auto split: option.splits)

lemma filter_genre_raises:
  assumes "(k, v) \<in> set kvs" and "d_genre v = None"
  shows "filter_genre U g kvs = Inl AttributeError"
  using assms by (induction kvs) (auto split: option.splits sum.splits)

lemma map_pair_id: "map (\<lambda>(book_id, book_data). (book_id, book_data)) kvs = kvs"
  by (induction kvs) auto

lemma exec_init_create: "exec U init [Create_Book a_book] =
  \<lparr>books_db = books_db init @ [(3, model_dump a_book)], next_book_id = 4\<rparr>"
  by (simp add: create_book_def isbn_exists_def init_def a_book_def Let_def status_defs)

lemma update_book_existing:
  assumes "map_of (books_db s) book_id = Some old"
  shows "update_book book_id u s =
           (if \<exists>v. u_isbn u = Some v \<and> isbn_conflict book_id v (books_db s)
            then (Inl (HTTPException 400
                    (''ISBN '' @ str_opt (the (u_isbn u)) @ '' already exists for another book'')), s)
            else (Inr (200, Message_Book ''Book updated successfully'' (book_id, dict_update old u)),
                  s\<lparr>books_db := AList.update book_id (dict_update old u) (books_db s)\<rparr>))"
  by (subst update_book_cases) (simp only: assms option.case)

lemma update_book_absent:
  assumes "map_of (books_db s) book_id = None"
  shows "update_book book_id u s = (Inl (not_found book_id), s)"
  by (subst update_book_cases) (simp only: assms option.case)

lemma update_book_InrD:
  assumes "fst (update_book book_id u s) = Inr resp"
  shows "\<exists>old. map_of (books_db s) book_id = Some old
           \<and> \<not> (\<exists>v. u_isbn u = Some v \<and> isbn_conflict book_id v (books_db s))
           \<and> update_book book_id u s =
               (Inr (200, Message_Book ''Book updated successfully'' (book_id, dict_update old u)),
                s\<lparr>books_db := AList.update book_id (dict_update old u) (books_db s)\<rparr>)"
proof (cases "map_of (books_db s) book_id")
  case None
  with assms show ?thesis by (simp add: update_book_absent)
next
  case (Some old)
  show ?thesis
  proof (cases "\<exists>v. u_isbn u = Some v \<and> isbn_conflict book_id v (books_db s)")
    case True
    with assms show ?thesis by (simp add: update_book_existing [OF Some])
  next
    case False
    then have "update_book book_id u s =
               (Inr (200, Message_Book ''Book updated successfully'' (book_id, dict_update old u)),
                s\<lparr>books_db := AList.update book_id (dict_update old u) (books_db s)\<rparr>)"
      by (simp only: update_book_existing [OF Some] if_False)
    with Some False show ?thesis by blast
  qed
qed

lemma update_keys_present:
  assumes "map_of al k = Some v'"
  shows "map fst (AList.update k v al) = map fst al"
proof -
  from assms have "(k, v') \<in> set al" by (rule map_of_SomeD)
  then have "k \<in> set (map fst al)" by force
  then show ?thesis by (simp add: AList.update_keys)
qed

lemma length_delete_present:
  assumes "distinct (map fst al)" and "map_of al k = Some v"
  shows "length (AList.delete k al) + 1 = length al"
proof -
  from assms(2) have "(k, v) \<in> set al" by (rule map_of_SomeD)
  then have k: "k \<in> set (map fst al)" by force
  have "length (AList.delete k al) = length (map fst (AList.delete k al))" by simp
  also have "\<dots> = length (remove1 k (map fst al))"
    using assms(1) by (simp only: AList.delete_keys distinct_remove1_removeAll)
  also have "\<dots> = length (map fst al) - 1" using k by (simp only: length_remove1 if_True)
  finally show ?thesis using k by (cases al) auto
qed

lemma get_all_books_plain:
  "get_all_books U None None s =
     (if books_db s = [] then (Inr (200, No_Books ''No books in catalog'' []), s)
      else (Inr (200, Listing (length (books_db s)) (books_db s)), s))"
  by (simp add: get_all_books_def Let_def map_pair_id status_defs)

lemma not_found_eq:
  "not_found book_id = HTTPException 404 (''Book with ID '' @ str_int book_id @ '' not found'')"
  by (simp add: not_found_def status_defs)

lemma create_book_id:
  assumes "fst (create_book book s) = Inr (st, Message_Book m (i, d))"
  shows "i = next_book_id s"
  using assms
  by (cases "isbn_exists (isbn book) (books_db s)") (simp_all add: create_book_fresh create_book_dup)

lemma exec_append: "exec U s (rs @ rs') = exec U (exec U s rs) rs'"
  by (induction rs arbitrary: s) simp_all

section \<open>Create\<close>

text \<open>
  C1. A payload whose isbn no stored book has is created: the response has status 201 and
  the id is the current value of \<open>next_book_id\<close>, which is one more afterwards;
  \<open>get_book\<close> with that id, in the state after, answers 200 with a record whose six
  fields are the payload's.
\<close>

theorem create_then_get:
  assumes "\<forall>(k, d) \<in> set (books_db s). d_isbn d \<noteq> Some (isbn book)"
  shows "\<exists>d s'. create_book book s =
             (Inr (201, Message_Book ''Book created successfully'' (next_book_id s, d)), s')
         \<and> next_book_id s' = next_book_id s + 1
         \<and> get_book (next_book_id s) s' = (Inr (200, One_Book (next_book_id s, d)), s')
         \<and> d = \<lparr>d_title = Some (title book), d_author = Some (author book),
                 d_isbn = Some (isbn book), d_publication_year = Some (publication_year book),
                 d_genre = Some (genre book), d_available = Some (available book)\<rparr>"
proof -
  from assms have fresh: "\<not> isbn_exists (isbn book) (books_db s)"
    by (auto simp: isbn_exists_iff)
  let ?s' = "\<lparr>books_db = AList.update (next_book_id s) (model_dump book) (books_db s),
              next_book_id = next_book_id s + 1\<rparr>"
  have "get_book (next_book_id s) ?s' = (Inr (200, One_Book (next_book_id s, model_dump book)), ?s')"
    by (simp add: get_book_def AList.update_conv' status_defs)
  with create_book_fresh [OF fresh] show ?thesis
    by (simp add: model_dump_def)
qed

theorem create_then_get_witness:
  "Some (isbn a_book) \<notin> set (map (d_isbn \<circ> snd) (books_db init)) \<and>
   (\<exists>d s'. create_book a_book init =
             (Inr (201, Message_Book ''Book created successfully'' (3, d)), s')
         \<and> next_book_id s' = 4
         \<and> get_book 3 s' = (Inr (200, One_Book (3, d)), s')
         \<and> d = \<lparr>d_title = Some ''Emma'', d_author = Some ''Jane Austen'',
                 d_isbn = Some ''978-0-14-143958-7'', d_publication_year = Some 1815,
                 d_genre = Some ''Romance'', d_available = Some False\<rparr>)"
proof -
  have h: "\<forall>(k, d) \<in> set (books_db init). d_isbn d \<noteq> Some (isbn a_book)"
    by (simp add: init_def a_book_def)
  from create_then_get [OF h] show ?thesis
    by (simp add: init_def a_book_def)
qed

text \<open>
  C2. A payload whose isbn some stored book has is refused: the handler raises the
  400 exception whose detail names the isbn, and the state after (catalog and counter) is
  the state before.
\<close>

theorem create_duplicate_isbn:
  assumes "(k, d) \<in> set (books_db s)" and "d_isbn d = Some (isbn book)"
  shows "create_book book s =
           (Inl (HTTPException 400 (''Book with ISBN '' @ isbn book @ '' already exists'')), s)"
proof -
  from assms have "isbn_exists (isbn book) (books_db s)"
    by (auto simp: isbn_exists_iff)
  then show ?thesis by (rule create_book_dup)
qed

theorem create_duplicate_isbn_witness:
  "create_book dup_book init =
     (Inl (HTTPException 400 ''Book with ISBN 978-0-06-112008-4 already exists''), init)"
proof -
  have "(1, snd (hd (books_db init))) \<in> set (books_db init)"
    and "d_isbn (snd (hd (books_db init))) = Some (isbn dup_book)"
    by (simp_all add: init_def dup_book_def)
  from create_duplicate_isbn [OF this] show ?thesis
    by (simp add: dup_book_def)
qed

section \<open>The seeded catalog\<close>

text \<open>
  C9. On the seeded catalog (ids 1 and 2), the listing with genre \<open>Fiction\<close> is the one
  book of id 1, "To Kill a Mockingbird", and the listing with available true is both
  seeds. The genres involved are ASCII, so this holds whatever \<open>str.lower\<close> does on
  other strings.
\<close>

theorem seeded_listing:
  "get_all_books U (Some ''Fiction'') None init =
     (Inr (200, Listing 1
        [(1, \<lparr>d_title = Some ''To Kill a Mockingbird'', d_author = Some ''Harper Lee'',
              d_isbn = Some ''978-0-06-112008-4'', d_publication_year = Some 1960,
              d_genre = Some ''Fiction'', d_available = Some True\<rparr>)]), init)
   \<and> get_all_books U None (Some True) init = (Inr (200, Listing 2 (books_db init)), init)
   \<and> map fst (books_db init) = [1, 2]"
  by (simp add: get_all_books_def init_def lower_def is_ascii_def lower_char_def filter_available_def
      status_defs Let_def)

section \<open>Listing\<close>

text \<open>
  C7, as the code has it. When no genre filter runs (no genre sent, or the empty string)
  or no stored genre is \<open>None\<close>, \<open>get_all_books\<close> answers 200 and leaves the state as
  it is; on the empty catalog the body is the message with an empty list, and otherwise
  it is \<open>total_books\<close> with the list, in catalog order, of exactly the books passing
  the filters: the stored genre and the genre sent have the same \<open>str.lower\<close> when
  a non-empty genre was sent, and the stored availability is the one sent when one was
  sent. This holds for every \<open>U\<close>, so for Python's lower-casing of non-ASCII text
  too.
\<close>

theorem list_filtered:
  assumes "genre_q = None \<or> genre_q = Some [] \<or> list_all (\<lambda>(k, v). d_genre v \<noteq> None) (books_db s)"
  shows "get_all_books U genre_q available_q s =
           (if books_db s = [] then (Inr (200, No_Books ''No books in catalog'' []), s)
            else (Inr (200, Listing
                    (length (filter (\<lambda>(k, v). passes_filters U genre_q available_q v) (books_db s)))
                    (filter (\<lambda>(k, v). passes_filters U genre_q available_q v) (books_db s))), s))"
proof (cases "books_db s = []")
  case True
  then show ?thesis by (simp add: get_all_books_def status_defs)
next
  case False
  have g: "(case genre_q of
              None \<Rightarrow> Inr (books_db s)
            | Some g \<Rightarrow> if g = [] then Inr (books_db s) else filter_genre U g (books_db s))
           = Inr (filter (\<lambda>(k, v). passes_filters U genre_q None v) (books_db s))"
  proof (cases genre_q)
    case None
    then show ?thesis by (simp add: passes_filters_def)
  next
    case (Some g)
    show ?thesis
    proof (cases "g = []")
      case True
      with Some show ?thesis by (simp add: passes_filters_def)
    next
      case False
      with Some assms have "\<forall>(k, v) \<in> set (books_db s). d_genre v \<noteq> None"
        by (simp add: list_all_iff)
      from filter_genre_ok [OF this] Some False show ?thesis
        by (simp add: passes_filters_def)
    qed
  qed
  have p: "(\<lambda>(k, v). passes_filters U genre_q (Some a) v) =
           (\<lambda>x. (case x of (k, v) \<Rightarrow> passes_filters U genre_q None v) \<and> (case x of (k, v) \<Rightarrow> d_available v = Some a))" for a
    by (auto simp: passes_filters_def fun_eq_iff split: option.splits)
  show ?thesis
    using False g
    by (cases available_q)
       (simp_all add: get_all_books_def status_defs Let_def map_pair_id filter_available_def p)
qed

theorem list_filtered_witness:
  "get_all_books id (Some ''fiction'') (Some True) init =
     (Inr (200, Listing 1 [hd (books_db init)]), init)"
  using list_filtered [where U = id and genre_q = "Some ''fiction''" and s = init
      and available_q = "Some True"]
  by (simp add: init_def passes_filters_def lower_def is_ascii_def lower_char_def)

text \<open>
  C7 as stated fails for a genre parameter that is the empty string: the seeded catalog
  has no book whose genre matches it, and the listing has both books, not none.
\<close>

theorem list_empty_genre_counterexample:
  "get_all_books id (Some '''') None init = (Inr (200, Listing 2 (books_db init)), init)
   \<and> filter (\<lambda>(k, v). map_option (lower id) (d_genre v) = Some (lower id '''')) (books_db init) = []
   \<and> fst (get_all_books id (Some '''') None init) \<noteq>
       Inr (200, Listing
         (length (filter (\<lambda>(k, v). map_option (lower id) (d_genre v) = Some (lower id ''''))
            (books_db init)))
         (filter (\<lambda>(k, v). map_option (lower id) (d_genre v) = Some (lower id '''')) (books_db init)))"
  by (simp add: get_all_books_def init_def lower_def status_defs Let_def)

text \<open>
  A stored genre of \<open>None\<close>, which \<open>update_book\<close> can write, makes the genre filter
  raise: the hypothesis of the theorem above excludes exactly these states.
\<close>

lemma list_null_genre_raises:
  "fst (get_all_books U (Some ''Fiction'') None (snd (update_book 1 null_update init))) =
     Inl AttributeError"
  by (simp add: update_book_def apply_update_def isbn_conflict_def null_update_def init_def
      dict_update_def get_all_books_def Let_def)

section \<open>Invariants of the reachable states\<close>

text \<open>
  C3. In the state after any sequence of requests from the seeded state, no id occurs
  twice, no isbn value is stored twice, and the books under two different ids have
  different isbn values.
\<close>

theorem isbn_unique_reachable:
  "distinct (map fst (books_db (exec U init rs)))
   \<and> distinct (map (\<lambda>p. d_isbn (snd p)) (books_db (exec U init rs)))
   \<and> (\<forall>i j d e. map_of (books_db (exec U init rs)) i = Some d
                \<and> map_of (books_db (exec U init rs)) j = Some e \<and> i \<noteq> j
          \<longrightarrow> d_isbn d \<noteq> d_isbn e)"
proof -
  let ?db = "books_db (exec U init rs)"
  have "inv (exec U init rs)" using inv_init by (rule inv_exec)
  then have k: "distinct (map fst ?db)" and i: "distinct (map (\<lambda>p. d_isbn (snd p)) ?db)"
    by (simp_all add: inv_def)
  from i have inj: "inj_on (\<lambda>p. d_isbn (snd p)) (set ?db)" by (simp add: distinct_map)
  have "d_isbn d \<noteq> d_isbn e"
    if "map_of ?db i = Some d" and "map_of ?db j = Some e" and "i \<noteq> j" for i j d e
  proof
    assume eq: "d_isbn d = d_isbn e"
    from that have "(i, d) \<in> set ?db" and "(j, e) \<in> set ?db"
      by (auto dest: map_of_SomeD)
    with inj eq have "(i, d) = (j, e)" by (fastforce simp: inj_on_def)
    with that(3) show False by simp
  qed
  with k i show ?thesis by blast
qed

theorem isbn_unique_reachable_witness:
  "map_of (books_db (exec id init [Create_Book a_book])) 3 = Some (model_dump a_book)
   \<and> map_of (books_db (exec id init [Create_Book a_book])) 1 = Some (snd (hd (books_db init)))
   \<and> d_isbn (model_dump a_book) \<noteq> d_isbn (snd (hd (books_db init)))"
proof -
  have 1: "map_of (books_db (exec id init [Create_Book a_book])) 3 = Some (model_dump a_book)"
    by (simp only: exec_init_create) (simp add: init_def)
  have 2: "map_of (books_db (exec id init [Create_Book a_book])) 1 = Some (snd (hd (books_db init)))"
    by (simp only: exec_init_create) (simp add: init_def)
  from isbn_unique_reachable [where U = id and rs = "[Create_Book a_book]"]
  have "map_of (books_db (exec id init [Create_Book a_book])) 3 = Some (model_dump a_book)
        \<and> map_of (books_db (exec id init [Create_Book a_book])) 1 = Some (snd (hd (books_db init)))
        \<and> (3::int) \<noteq> 1
      \<longrightarrow> d_isbn (model_dump a_book) \<noteq> d_isbn (snd (hd (books_db init)))"
    by blast
  with 1 2 show ?thesis by simp
qed

text \<open>
  C8. The counter starts at 3, above the seeds' ids 1 and 2; no request lowers it, and
  \<open>delete_book\<close> leaves it as it is. So an id that was in the catalog at some point
  of a run is smaller than every id a later \<open>create_book\<close> returns, whatever was
  deleted in between, and the returned id is not in the catalog at that moment.
\<close>

theorem ids_never_reused:
  "next_book_id init = 3 \<and> map fst (books_db init) = [1, 2]
   \<and> next_book_id s \<le> next_book_id (snd (handle U r s))
   \<and> next_book_id s \<le> next_book_id (exec U s rs')
   \<and> next_book_id (snd (delete_book j s)) = next_book_id s
   \<and> (\<forall>rs k rs2 book st m i d.
         k \<in> fst ` set (books_db (exec U init rs))
         \<and> fst (create_book book (exec U (exec U init rs) rs2)) = Inr (st, Message_Book m (i, d))
         \<longrightarrow> k < i \<and> i \<notin> fst ` set (books_db (exec U (exec U init rs) rs2)))"
proof -
  have "k < i \<and> i \<notin> fst ` set (books_db (exec U (exec U init rs) rs2))"
    if k: "k \<in> fst ` set (books_db (exec U init rs))"
      and c: "fst (create_book book (exec U (exec U init rs) rs2)) = Inr (st, Message_Book m (i, d))"
    for rs k rs2 book st m i d
  proof -
    have "inv (exec U init rs)" using inv_init by (rule inv_exec)
    with k have "k < next_book_id (exec U init rs)"
      by (auto simp: inv_def list_all_iff)
    also have "\<dots> \<le> next_book_id (exec U (exec U init rs) rs2)" by (rule counter_exec)
    also from c have "\<dots> = i" by (rule create_book_id [symmetric])
    finally have 1: "k < i" .
    have "inv (exec U init (rs @ rs2))" using inv_init by (rule inv_exec)
    then have "\<forall>k' \<in> fst ` set (books_db (exec U (exec U init rs) rs2)).
                 k' < next_book_id (exec U (exec U init rs) rs2)"
      by (auto simp: inv_def list_all_iff exec_append)
    moreover from c have "i = next_book_id (exec U (exec U init rs) rs2)" by (rule create_book_id)
    ultimately have 2: "i \<notin> fst ` set (books_db (exec U (exec U init rs) rs2))"
      by (metis less_irrefl)
    from 1 2 show ?thesis ..
  qed
  moreover have "next_book_id init = 3" and "map fst (books_db init) = [1, 2]"
    by (simp_all add: init_def)
  moreover note counter_handle [of s U r] counter_exec [of s U rs'] counter_delete [of j s]
  ultimately show ?thesis by blast
qed

theorem ids_never_reused_witness:
  "1 \<in> fst ` set (books_db (exec id init []))
   \<and> 1 \<notin> fst ` set (books_db (exec id (exec id init []) [Delete_Book 1]))
   \<and> fst (create_book a_book (exec id (exec id init []) [Delete_Book 1])) =
       Inr (201, Message_Book ''Book created successfully'' (3, model_dump a_book))
   \<and> (1::int) < 3"
proof -
  have k: "1 \<in> fst ` set (books_db (exec id init []))"
    by (simp add: init_def)
  have g: "1 \<notin> fst ` set (books_db (exec id (exec id init []) [Delete_Book 1]))"
    by (simp add: init_def delete_book_def)
  have c: "fst (create_book a_book (exec id (exec id init []) [Delete_Book 1])) =
       Inr (201, Message_Book ''Book created successfully'' (3, model_dump a_book))"
    by (simp add: init_def delete_book_def create_book_def isbn_exists_def a_book_def Let_def
        status_defs)
  from ids_never_reused [where U = id and s = init and r = "Get_Book 0" and rs' = "[]" and j = 0] k c have "(1::int) < 3"
    by blast
  with k g c show ?thesis by blast
qed

section \<open>Update\<close>

text \<open>
  C4. When \<open>update_book\<close> succeeds, the id was in the catalog with some record
  \<open>old\<close>; the response is 200 with the id and the record \<open>new\<close> now stored under it;
  every other id maps to what it mapped to, the order of ids and the counter are as
  before; and each field of \<open>new\<close> is the value sent for it, or the field of \<open>old\<close>
  when none was sent.
\<close>

theorem update_frame:
  assumes "fst (update_book book_id u s) = Inr resp"
  shows "\<exists>old new.
           map_of (books_db s) book_id = Some old
         \<and> resp = (200, Message_Book ''Book updated successfully'' (book_id, new))
         \<and> map_of (books_db (snd (update_book book_id u s))) = (map_of (books_db s))(book_id \<mapsto> new)
         \<and> map fst (books_db (snd (update_book book_id u s))) = map fst (books_db s)
         \<and> next_book_id (snd (update_book book_id u s)) = next_book_id s
         \<and> d_title new = (case u_title u of None \<Rightarrow> d_title old | Some v \<Rightarrow> v)
         \<and> d_author new = (case u_author u of None \<Rightarrow> d_author old | Some v \<Rightarrow> v)
         \<and> d_isbn new = (case u_isbn u of None \<Rightarrow> d_isbn old | Some v \<Rightarrow> v)
         \<and> d_publication_year new =
             (case u_publication_year u of None \<Rightarrow> d_publication_year old | Some v \<Rightarrow> v)
         \<and> d_genre new = (case u_genre u of None \<Rightarrow> d_genre old | Some v \<Rightarrow> v)
         \<and> d_available new = (case u_available u of None \<Rightarrow> d_available old | Some v \<Rightarrow> v)"
proof -
  from update_book_InrD [OF assms] obtain old where
    old: "map_of (books_db s) book_id = Some old" and
    eq: "update_book book_id u s =
           (Inr (200, Message_Book ''Book updated successfully'' (book_id, dict_update old u)),
            s\<lparr>books_db := AList.update book_id (dict_update old u) (books_db s)\<rparr>)"
    by blast
  from eq assms have resp: "resp = (200, Message_Book ''Book updated successfully'' (book_id, dict_update old u))"
    by simp
  have keys: "map fst (AList.update book_id (dict_update old u) (books_db s)) = map fst (books_db s)"
    using old by (rule update_keys_present)
  show ?thesis
    apply (rule exI [of _ old])
    apply (rule exI [of _ "dict_update old u"])
    apply (simp add: old resp eq keys AList.update_conv')
    apply (simp add: dict_update_def)
    done
qed

theorem update_frame_witness:
  "fst (update_book 1 available_update init) =
     Inr (200, Message_Book ''Book updated successfully''
       (1, \<lparr>d_title = Some ''To Kill a Mockingbird'', d_author = Some ''Harper Lee'',
            d_isbn = Some ''978-0-06-112008-4'', d_publication_year = Some 1960,
            d_genre = Some ''Fiction'', d_available = Some False\<rparr>))
   \<and> map_of (books_db (snd (update_book 1 available_update init))) 2 = map_of (books_db init) 2"
proof -
  have r: "fst (update_book 1 available_update init) =
     Inr (200, Message_Book ''Book updated successfully''
       (1, \<lparr>d_title = Some ''To Kill a Mockingbird'', d_author = Some ''Harper Lee'',
            d_isbn = Some ''978-0-06-112008-4'', d_publication_year = Some 1960,
            d_genre = Some ''Fiction'', d_available = Some False\<rparr>))"
    by (simp add: update_book_def apply_update_def init_def available_update_def dict_update_def
        status_defs Let_def)
  from update_frame [OF r] have
    "map_of (books_db (snd (update_book 1 available_update init))) 2 = map_of (books_db init) 2"
    by auto
  with r show ?thesis by simp
qed

text \<open>
  C5. For an id in the catalog, \<open>update_book\<close> raises the 400 exception exactly when
  an isbn was sent and a book under another id has that value; it raises nothing else,
  and the state after a raise is the state before. In a state reached from the seeds,
  sending a book's own stored isbn succeeds.
\<close>

theorem update_conflict_iff:
  assumes "map_of (books_db s) book_id = Some old"
  shows "((\<exists>detail. fst (update_book book_id u s) = Inl (HTTPException 400 detail)) \<longleftrightarrow>
            (\<exists>v. u_isbn u = Some v
               \<and> (\<exists>(bid, bdata) \<in> set (books_db s). bid \<noteq> book_id \<and> d_isbn bdata = v)))
       \<and> (\<forall>e. fst (update_book book_id u s) = Inl e \<longrightarrow>
            (\<exists>v. u_isbn u = Some v
               \<and> e = HTTPException 400 (''ISBN '' @ str_opt v @ '' already exists for another book''))
            \<and> snd (update_book book_id u s) = s)
       \<and> ((\<exists>rs. s = exec U init rs) \<and> u_isbn u = Some (d_isbn old) \<longrightarrow>
            (\<exists>resp. fst (update_book book_id u s) = Inr resp))"
proof (intro conjI)
  let ?c = "\<exists>v. u_isbn u = Some v \<and> isbn_conflict book_id v (books_db s)"
  note ub = update_book_existing [OF assms, of u]
  show "(\<exists>detail. fst (update_book book_id u s) = Inl (HTTPException 400 detail)) \<longleftrightarrow>
            (\<exists>v. u_isbn u = Some v
               \<and> (\<exists>(bid, bdata) \<in> set (books_db s). bid \<noteq> book_id \<and> d_isbn bdata = v))"
  proof (cases ?c)
    case True
    then show ?thesis by (simp add: ub isbn_conflict_iff)
  next
    case False
    then have "fst (update_book book_id u s) =
        Inr (200, Message_Book ''Book updated successfully'' (book_id, dict_update old u))"
      by (simp only: ub if_False fst_conv)
    with False show ?thesis by (simp add: isbn_conflict_iff)
  qed
  show "\<forall>e. fst (update_book book_id u s) = Inl e \<longrightarrow>
            (\<exists>v. u_isbn u = Some v
               \<and> e = HTTPException 400 (''ISBN '' @ str_opt v @ '' already exists for another book''))
            \<and> snd (update_book book_id u s) = s"
  proof (cases ?c)
    case True
    then show ?thesis by (auto simp: ub)
  next
    case False
    then have "fst (update_book book_id u s) =
        Inr (200, Message_Book ''Book updated successfully'' (book_id, dict_update old u))"
      by (simp only: ub if_False fst_conv)
    then show ?thesis by simp
  qed
  show "(\<exists>rs. s = exec U init rs) \<and> u_isbn u = Some (d_isbn old) \<longrightarrow>
            (\<exists>resp. fst (update_book book_id u s) = Inr resp)"
  proof
    assume a: "(\<exists>rs. s = exec U init rs) \<and> u_isbn u = Some (d_isbn old)"
    then obtain rs where s: "s = exec U init rs" by blast
    have "inv (exec U init rs)" using inv_init by (rule inv_exec)
    with s have "inj_on (\<lambda>p. d_isbn (snd p)) (set (books_db s))"
      by (simp add: inv_def distinct_map)
    moreover from assms have "(book_id, old) \<in> set (books_db s)" by (rule map_of_SomeD)
    ultimately have "\<not> isbn_conflict book_id (d_isbn old) (books_db s)"
      by (fastforce simp: isbn_conflict_iff inj_on_def)
    with a have "\<not> ?c" by simp
    then have "fst (update_book book_id u s) =
        Inr (200, Message_Book ''Book updated successfully'' (book_id, dict_update old u))"
      by (simp only: ub if_False fst_conv)
    then show "\<exists>resp. fst (update_book book_id u s) = Inr resp" by blast
  qed
qed

theorem update_conflict_iff_witness:
  "update_book 2 (isbn_update (Some ''978-0-06-112008-4'')) init =
     (Inl (HTTPException 400 ''ISBN 978-0-06-112008-4 already exists for another book''), init)
   \<and> (\<exists>resp. fst (update_book 1 (isbn_update (Some ''978-0-06-112008-4'')) init) = Inr resp)"
proof -
  have 2: "map_of (books_db init) 2 = Some (snd (hd (tl (books_db init))))"
    by (simp add: init_def)
  have 1: "map_of (books_db init) 1 = Some (snd (hd (books_db init)))"
    by (simp add: init_def)
  have c: "update_book 2 (isbn_update (Some ''978-0-06-112008-4'')) init =
     (Inl (HTTPException 400 ''ISBN 978-0-06-112008-4 already exists for another book''), init)"
  proof -
    have "\<exists>v. u_isbn (isbn_update (Some ''978-0-06-112008-4'')) = Some v
               \<and> (\<exists>(bid, bdata) \<in> set (books_db init). bid \<noteq> 2 \<and> d_isbn bdata = v)"
      by (simp add: isbn_update_def init_def)
    with update_conflict_iff [OF 2, where U = id and u = "isbn_update (Some ''978-0-06-112008-4'')"]
    obtain detail where
      f: "fst (update_book 2 (isbn_update (Some ''978-0-06-112008-4'')) init) = Inl (HTTPException 400 detail)"
      by blast
    with update_conflict_iff [OF 2, where U = id and u = "isbn_update (Some ''978-0-06-112008-4'')"]
    have "(\<exists>v. u_isbn (isbn_update (Some ''978-0-06-112008-4'')) = Some v
             \<and> HTTPException 400 detail =
                 HTTPException 400 (''ISBN '' @ str_opt v @ '' already exists for another book''))
          \<and> snd (update_book 2 (isbn_update (Some ''978-0-06-112008-4'')) init) = init"
      by blast
    with f show ?thesis
      by (cases "update_book 2 (isbn_update (Some ''978-0-06-112008-4'')) init")
         (auto simp: isbn_update_def str_opt_def)
  qed
  have "init = exec id init []" by simp
  then have "(\<exists>rs. init = exec id init rs)" by blast
  moreover have "u_isbn (isbn_update (Some ''978-0-06-112008-4'')) = Some (d_isbn (snd (hd (books_db init))))"
    by (simp add: isbn_update_def init_def)
  ultimately have "\<exists>resp. fst (update_book 1 (isbn_update (Some ''978-0-06-112008-4'')) init) = Inr resp"
    using update_conflict_iff [OF 1, where U = id and u = "isbn_update (Some ''978-0-06-112008-4'')"] by blast
  with c show ?thesis by blast
qed

text \<open>
  C10, as the code has it. For an id in the catalog and a body whose isbn, if sent (null
  counts as a value), no other id stores, \<open>update_book\<close> succeeds and stores a record
  in which each field that was not sent is the old one and each field sent as null is
  \<open>None\<close>, whatever type \<open>Book\<close> declares for it.
\<close>

theorem update_null_vs_absent:
  assumes "map_of (books_db s) book_id = Some old"
    and "\<forall>v. u_isbn u = Some v \<longrightarrow>
           (\<forall>(bid, bdata) \<in> set (books_db s). bid \<noteq> book_id \<longrightarrow> d_isbn bdata \<noteq> v)"
  shows "\<exists>new. fst (update_book book_id u s) =
             Inr (200, Message_Book ''Book updated successfully'' (book_id, new))
         \<and> map_of (books_db (snd (update_book book_id u s))) book_id = Some new
         \<and> (u_title u = None \<longrightarrow> d_title new = d_title old)
         \<and> (u_title u = Some None \<longrightarrow> d_title new = None)
         \<and> (u_author u = None \<longrightarrow> d_author new = d_author old)
         \<and> (u_author u = Some None \<longrightarrow> d_author new = None)
         \<and> (u_isbn u = None \<longrightarrow> d_isbn new = d_isbn old)
         \<and> (u_isbn u = Some None \<longrightarrow> d_isbn new = None)
         \<and> (u_publication_year u = None \<longrightarrow> d_publication_year new = d_publication_year old)
         \<and> (u_publication_year u = Some None \<longrightarrow> d_publication_year new = None)
         \<and> (u_genre u = None \<longrightarrow> d_genre new = d_genre old)
         \<and> (u_genre u = Some None \<longrightarrow> d_genre new = None)
         \<and> (u_available u = None \<longrightarrow> d_available new = d_available old)
         \<and> (u_available u = Some None \<longrightarrow> d_available new = None)"
proof -
  from assms(2) have "\<not> (\<exists>v. u_isbn u = Some v \<and> isbn_conflict book_id v (books_db s))"
    by (fastforce simp: isbn_conflict_iff)
  then have eq: "update_book book_id u s =
      (Inr (200, Message_Book ''Book updated successfully'' (book_id, dict_update old u)),
       s\<lparr>books_db := AList.update book_id (dict_update old u) (books_db s)\<rparr>)"
    by (simp only: update_book_existing [OF assms(1)] if_False)
  show ?thesis
    apply (rule exI [of _ "dict_update old u"])
    apply (simp add: eq AList.update_conv')
    apply (simp add: dict_update_def)
    done
qed

theorem update_null_vs_absent_witness:
  "fst (update_book 1 null_update init) =
     Inr (200, Message_Book ''Book updated successfully''
       (1, \<lparr>d_title = None, d_author = None, d_isbn = None, d_publication_year = None,
            d_genre = None, d_available = None\<rparr>))
   \<and> map_of (books_db (snd (update_book 1 null_update init))) 1 =
       Some \<lparr>d_title = None, d_author = None, d_isbn = None, d_publication_year = None,
            d_genre = None, d_available = None\<rparr>"
proof -
  have 1: "map_of (books_db init) 1 = Some (snd (hd (books_db init)))"
    by (simp add: init_def)
  have 2: "\<forall>v. u_isbn null_update = Some v \<longrightarrow>
           (\<forall>(bid, bdata) \<in> set (books_db init). bid \<noteq> 1 \<longrightarrow> d_isbn bdata \<noteq> v)"
    by (simp add: null_update_def init_def)
  from update_null_vs_absent [OF 1 2] obtain new where
    r: "fst (update_book 1 null_update init) =
             Inr (200, Message_Book ''Book updated successfully'' (1, new))"
    and m: "map_of (books_db (snd (update_book 1 null_update init))) 1 = Some new"
    and f: "d_title new = None" "d_author new = None" "d_isbn new = None"
      "d_publication_year new = None" "d_genre new = None" "d_available new = None"
    by (auto simp: null_update_def)
  from f have "new = \<lparr>d_title = None, d_author = None, d_isbn = None, d_publication_year = None,
            d_genre = None, d_available = None\<rparr>"
    by (cases new) simp
  with r m show ?thesis by simp
qed

text \<open>
  C10 as stated, for every existing id and every body, fails when the isbn sent is stored
  under another id, and null is such a value: once book 1 stores a null isbn, sending a
  null isbn for book 2 raises the 400 exception, and book 2 keeps its isbn.
\<close>

theorem update_null_conflict_counterexample:
  "map_of (books_db (exec id init [Update_Book 1 null_update])) 2 =
     Some \<lparr>d_title = Some ''1984'', d_author = Some ''George Orwell'',
           d_isbn = Some ''978-0-452-28423-4'', d_publication_year = Some 1949,
           d_genre = Some ''Dystopian'', d_available = Some True\<rparr>
   \<and> u_isbn (isbn_update None) = Some None
   \<and> fst (update_book 2 (isbn_update None) (exec id init [Update_Book 1 null_update])) =
       Inl (HTTPException 400 ''ISBN None already exists for another book'')
   \<and> map_of (books_db (snd (update_book 2 (isbn_update None)
         (exec id init [Update_Book 1 null_update])))) 2 =
       Some \<lparr>d_title = Some ''1984'', d_author = Some ''George Orwell'',
             d_isbn = Some ''978-0-452-28423-4'', d_publication_year = Some 1949,
             d_genre = Some ''Dystopian'', d_available = Some True\<rparr>"
  by (simp add: update_book_def apply_update_def isbn_conflict_def null_update_def
      isbn_update_def init_def dict_update_def str_opt_def status_defs Let_def)

section \<open>Delete\<close>

text \<open>
  C6. For an id in the catalog (a dict: no id twice), \<open>delete_book\<close> answers 200 with
  the id and the stored record, and the state after has every other entry, in order, and
  none under that id; \<open>get_book\<close> of the id then raises the 404 exception that names
  the id, and the catalog holds one book less: the unfiltered listing reported
  \<open>total_books\<close> as the number of books before, and reports one less after, or the
  empty result when the deleted book was the last one. For an id not in the catalog,
  \<open>delete_book\<close> and \<open>get_book\<close> raise that 404 exception and the state stays.
\<close>

theorem delete_then_get:
  "(map_of (books_db s) book_id = Some d \<and> is_dict s \<longrightarrow>
      (let s' = snd (delete_book book_id s) in
         fst (delete_book book_id s) =
           Inr (200, Message_Deleted ''Book deleted successfully'' (book_id, d))
       \<and> books_db s' = filter (\<lambda>(k, v). k \<noteq> book_id) (books_db s)
       \<and> map_of (books_db s') = (map_of (books_db s))(book_id := None)
       \<and> next_book_id s' = next_book_id s
       \<and> get_book book_id s' =
           (Inl (HTTPException 404 (''Book with ID '' @ str_int book_id @ '' not found'')), s')
       \<and> length (books_db s') + 1 = length (books_db s)
       \<and> fst (get_all_books U None None s) =
           Inr (200, Listing (length (books_db s)) (books_db s))
       \<and> fst (get_all_books U None None s') =
           (if books_db s' = [] then Inr (200, No_Books ''No books in catalog'' [])
            else Inr (200, Listing (length (books_db s) - 1) (books_db s')))))
   \<and> (map_of (books_db s) book_id = None \<longrightarrow>
        delete_book book_id s =
          (Inl (HTTPException 404 (''Book with ID '' @ str_int book_id @ '' not found'')), s)
      \<and> get_book book_id s =
          (Inl (HTTPException 404 (''Book with ID '' @ str_int book_id @ '' not found'')), s))"
proof (intro conjI impI)
  assume a: "map_of (books_db s) book_id = Some d \<and> is_dict s"
  then have d: "map_of (books_db s) book_id = Some d" and k: "distinct (map fst (books_db s))"
    by (simp_all add: is_dict_def)
  let ?s' = "s\<lparr>books_db := AList.delete book_id (books_db s)\<rparr>"
  have del: "delete_book book_id s =
      (Inr (200, Message_Deleted ''Book deleted successfully'' (book_id, d)), ?s')"
    by (simp add: delete_book_def d status_defs)
  have c2: "books_db ?s' = filter (\<lambda>(k, v). k \<noteq> book_id) (books_db s)"
    by (auto simp: AList.delete_eq intro: filter_cong)
  have c3: "map_of (books_db ?s') = (map_of (books_db s))(book_id := None)"
    by (simp add: AList.delete_conv')
  have c4: "next_book_id ?s' = next_book_id s"
    by simp
  have c5: "get_book book_id ?s' =
      (Inl (HTTPException 404 (''Book with ID '' @ str_int book_id @ '' not found'')), ?s')"
    by (simp add: get_book_def AList.delete_conv' not_found_eq)
  have c6: "length (books_db ?s') + 1 = length (books_db s)"
    using length_delete_present [OF k d] by simp
  have ne: "books_db s \<noteq> []" using d by auto
  have c7: "fst (get_all_books U None None s) =
      Inr (200, Listing (length (books_db s)) (books_db s))"
    using ne by (simp add: get_all_books_plain)
  have c8: "fst (get_all_books U None None ?s') =
      (if books_db ?s' = [] then Inr (200, No_Books ''No books in catalog'' [])
       else Inr (200, Listing (length (books_db s) - 1) (books_db ?s')))"
  proof -
    from c6 have "length (books_db ?s') = length (books_db s) - 1" by arith
    then show ?thesis by (simp add: get_all_books_plain)
  qed
  show "let s' = snd (delete_book book_id s) in
         fst (delete_book book_id s) =
           Inr (200, Message_Deleted ''Book deleted successfully'' (book_id, d))
       \<and> books_db s' = filter (\<lambda>(k, v). k \<noteq> book_id) (books_db s)
       \<and> map_of (books_db s') = (map_of (books_db s))(book_id := None)
       \<and> next_book_id s' = next_book_id s
       \<and> get_book book_id s' =
           (Inl (HTTPException 404 (''Book with ID '' @ str_int book_id @ '' not found'')), s')
       \<and> length (books_db s') + 1 = length (books_db s)
       \<and> fst (get_all_books U None None s) =
           Inr (200, Listing (length (books_db s)) (books_db s))
       \<and> fst (get_all_books U None None s') =
           (if books_db s' = [] then Inr (200, No_Books ''No books in catalog'' [])
            else Inr (200, Listing (length (books_db s) - 1) (books_db s')))"
    unfolding Let_def
    apply (subst (1 2 3 4 5 6 7 8 9 10) del)
    apply (unfold snd_conv)
    apply (intro conjI)
    apply (rule fst_conv c2 c3 c4 c5 c6 c7 c8)+
    done
next
  assume "map_of (books_db s) book_id = None"
  then show "delete_book book_id s =
          (Inl (HTTPException 404 (''Book with ID '' @ str_int book_id @ '' not found'')), s)"
    by (simp add: delete_book_def not_found_eq)
next
  assume "map_of (books_db s) book_id = None"
  then show "get_book book_id s =
          (Inl (HTTPException 404 (''Book with ID '' @ str_int book_id @ '' not found'')), s)"
    by (simp add: get_book_def not_found_eq)
qed

theorem delete_then_get_witness:
  "fst (delete_book 1 init) =
     Inr (200, Message_Deleted ''Book deleted successfully'' (1, snd (hd (books_db init))))
   \<and> fst (get_book 1 (snd (delete_book 1 init))) =
       Inl (HTTPException 404 ''Book with ID 1 not found'')
   \<and> fst (get_all_books id None None init) = Inr (200, Listing 2 (books_db init))
   \<and> fst (get_all_books id None None (snd (delete_book 1 init))) =
       Inr (200, Listing 1 (tl (books_db init)))
   \<and> delete_book 7 init = (Inl (HTTPException 404 ''Book with ID 7 not found''), init)"
proof -
  have 1: "map_of (books_db init) 1 = Some (snd (hd (books_db init))) \<and> is_dict init"
    by (simp add: init_def is_dict_def)
  have 2: "map_of (books_db init) 7 = None"
    by (simp add: init_def)
  have s1: "str_int 1 = ''1''" and s7: "str_int 7 = ''7''"
    by (simp_all add: str_int_def str_nat.simps digit_def)
  have t: "books_db (snd (delete_book 1 init)) = tl (books_db init)"
    by (simp add: delete_book_def init_def)
  from delete_then_get [where U = id and s = init and book_id = 1 and d = "snd (hd (books_db init))"] 1
  have a: "fst (delete_book 1 init) =
     Inr (200, Message_Deleted ''Book deleted successfully'' (1, snd (hd (books_db init))))"
    and b: "fst (get_book 1 (snd (delete_book 1 init))) =
       Inl (HTTPException 404 ''Book with ID 1 not found'')"
    and c: "fst (get_all_books id None None init) = Inr (200, Listing (length (books_db init)) (books_db init))"
    and d: "fst (get_all_books id None None (snd (delete_book 1 init))) =
           (if books_db (snd (delete_book 1 init)) = [] then Inr (200, No_Books ''No books in catalog'' [])
            else Inr (200, Listing (length (books_db init) - 1) (books_db (snd (delete_book 1 init)))))"
    by (simp_all add: Let_def s1)
  from delete_then_get [where U = id and s = init and book_id = 7] 2
  have e: "delete_book 7 init = (Inl (HTTPException 404 ''Book with ID 7 not found''), init)"
    by (simp add: s7)
  from c have c': "fst (get_all_books id None None init) = Inr (200, Listing 2 (books_db init))"
    by (simp add: init_def)
  from d have d': "fst (get_all_books id None None (snd (delete_book 1 init))) =
       Inr (200, Listing 1 (tl (books_db init)))"
    unfolding t by (simp add: init_def)
  from a b c' d' e show ?thesis by blast
qed

end
